theory Spec2Isabelle
  imports Main
begin

section \<open>Python strings\<close>

text \<open>
  The launcher \<^verbatim>\<open>run_singularity.py\<close> only formats strings. A Python \<^verbatim>\<open>str\<close> is a
  \<^typ>\<open>string\<close>; the operations below are the \<^verbatim>\<open>str\<close> methods and built-ins the script and
  the \<^verbatim>\<open>posixpath\<close> functions it calls rely on.
\<close>

definition sep :: char where
  "sep = CHR ''/''"

text \<open>\<^verbatim>\<open>s.startswith(p)\<close> and \<^verbatim>\<open>s.endswith(p)\<close>.\<close>

definition startswith :: "string \<Rightarrow> string \<Rightarrow> bool" where
  "startswith s p = (take (length p) s = p)"

definition endswith :: "string \<Rightarrow> string \<Rightarrow> bool" where
  "endswith s p = (length p \<le> length s \<and> drop (length s - length p) s = p)"

text \<open>\<^verbatim>\<open>s.rfind(c)\<close> for a one-character \<^verbatim>\<open>c\<close>: the index of its last occurrence, or -1.\<close>

definition rfind :: "string \<Rightarrow> char \<Rightarrow> int" where
  "rfind s c =
     (if c \<in> set s then int (length s) - 1 - int (length (takeWhile (\<lambda>x. x \<noteq> c) (rev s)))
      else - 1)"

text \<open>\<^verbatim>\<open>s.rstrip(c)\<close> for a one-character \<^verbatim>\<open>c\<close>.\<close>

definition rstrip :: "string \<Rightarrow> char \<Rightarrow> string" where
  "rstrip s c = rev (dropWhile (\<lambda>x. x = c) (rev s))"

text \<open>\<^verbatim>\<open>s.split(c)\<close> for a one-character \<^verbatim>\<open>c\<close>: one more piece than there are separators.\<close>

fun split_chr :: "char \<Rightarrow> string \<Rightarrow> string list" where
  "split_chr c [] = [[]]"
| "split_chr c (x # xs) =
     (if x = c then [] # split_chr c xs
      else (case split_chr c xs of piece # pieces \<Rightarrow> (x # piece) # pieces | [] \<Rightarrow> [[x]]))"

text \<open>\<^verbatim>\<open>d.join(xs)\<close>.\<close>

fun str_join :: "string \<Rightarrow> string list \<Rightarrow> string" where
  "str_join d [] = []"
| "str_join d [x] = x"
| "str_join d (x # y # ys) = x @ d @ str_join d (y # ys)"

text \<open>\<^verbatim>\<open>str(i)\<close> for a non-negative integer, as the f-string \<^verbatim>\<open>f"fasta_path_{i}"\<close> renders it.\<close>

definition digit :: "nat \<Rightarrow> char" where
  "digit d = char_of (48 + d)"

fun str_nat :: "nat \<Rightarrow> string" where
  "str_nat n = (if n < 10 then [digit n] else str_nat (n div 10) @ [digit (n mod 10)])"

declare str_nat.simps [simp del]

text \<open>\<^verbatim>\<open>str(b)\<close> for a boolean.\<close>

definition str_bool :: "bool \<Rightarrow> string" where
  "str_bool b = (if b then ''True'' else ''False'')"

section \<open>The \<^verbatim>\<open>os.path\<close> functions (posixpath)\<close>

text \<open>
  \<^verbatim>\<open>os.path.join(a, *p)\<close>: a component that starts with the separator discards what came
  before it; otherwise a separator is inserted unless the path so far is empty or already
  ends with one.
\<close>

definition join_step :: "string \<Rightarrow> string \<Rightarrow> string" where
  "join_step path b =
     (if startswith b [sep] then b
      else if path = [] \<or> endswith path [sep] then path @ b
      else path @ [sep] @ b)"

definition join_path :: "string \<Rightarrow> string list \<Rightarrow> string" where
  "join_path a p = foldl join_step a p"

text \<open>\<^verbatim>\<open>os.path.basename(p)\<close>: \<^verbatim>\<open>i = p.rfind(sep) + 1; return p[i:]\<close>.\<close>

definition basename :: "string \<Rightarrow> string" where
  "basename p = (let i = rfind p sep + 1 in drop (nat i) p)"

text \<open>
  \<^verbatim>\<open>os.path.dirname(p)\<close>: the part up to the last separator, with trailing separators
  stripped unless it consists of separators only.
\<close>

definition dirname :: "string \<Rightarrow> string" where
  "dirname p =
     (let i = rfind p sep + 1;
          head = take (nat i) p
      in if head \<noteq> [] \<and> head \<noteq> replicate (length head) sep then rstrip head sep else head)"

text \<open>
  \<^verbatim>\<open>os.path.splitroot(p)\<close>, without the drive that is always empty on POSIX: the root
  (empty, one slash, or exactly two slashes) and the rest.
\<close>

definition splitroot :: "string \<Rightarrow> string \<times> string" where
  "splitroot p =
     (if take 1 p \<noteq> [sep] then ([], p)
      else if take 1 (drop 1 p) \<noteq> [sep] \<or> take 1 (drop 2 p) = [sep] then ([sep], drop 1 p)
      else (take 2 p, drop 2 p))"

text \<open>
  \<^verbatim>\<open>os.path.normpath(path)\<close>: the loop over the components keeps a stack \<^verbatim>\<open>new_comps\<close>;
  empty and \<^verbatim>\<open>.\<close> components are skipped, \<^verbatim>\<open>..\<close> pops a component unless there is none to
  pop (then it is kept in a relative path and dropped at the root).
\<close>

definition normpath_step :: "string \<Rightarrow> string list \<Rightarrow> string \<Rightarrow> string list" where
  "normpath_step initial_slashes new_comps component =
     (if component = [] \<or> component = ''.'' then new_comps
      else if component \<noteq> ''..'' \<or> (initial_slashes = [] \<and> new_comps = [])
                \<or> (new_comps \<noteq> [] \<and> last new_comps = ''..'')
           then new_comps @ [component]
      else if new_comps \<noteq> [] then butlast new_comps
      else new_comps)"

definition normpath :: "string \<Rightarrow> string" where
  "normpath path =
     (if path = [] then ''.''
      else
        let (initial_slashes, rest) = splitroot path;
            comps = split_chr sep rest;
            new_comps = foldl (normpath_step initial_slashes) [] comps;
            path' = initial_slashes @ str_join [sep] new_comps
        in if path' = [] then ''.'' else path')"

text \<open>
  \<^verbatim>\<open>os.path.abspath(path)\<close>: a relative path is joined onto the working directory
  (\<^verbatim>\<open>os.getcwd()\<close>, here the parameter \<open>wd\<close>), then normalised.
\<close>

definition abspath :: "string \<Rightarrow> string \<Rightarrow> string" where
  "abspath wd path =
     normpath (if startswith path [sep] then path else join_path wd [path])"

section \<open>The launcher\<close>

definition CONTAINER_IMAGE :: string where
  "CONTAINER_IMAGE = ''docker://catgumag/alphafold:latest''"

definition ROOT_MOUNT_DIRECTORY :: string where
  "ROOT_MOUNT_DIRECTORY = ''/mnt''"

definition AVAILABLE_MODELS :: "string list" where
  "AVAILABLE_MODELS = [''model_1'', ''model_2'', ''model_3'', ''model_4'', ''model_5'']"

text \<open>
  What the script reads from and writes to its process: the working directory and the
  current date (rendered \<^verbatim>\<open>%Y-%m-%d\<close>) are read; lines are printed to standard output and
  child processes are spawned and waited for.
\<close>

record process =
  cwd :: string
  today :: string
  stdout :: "string list"
  spawned :: "string list list"

text \<open>
  \<^verbatim>\<open>generate_mount(mount_name, path, read_only=True)\<close> returns the bind specification
  \<^verbatim>\<open>source:target:opts\<close> and the path under which \<^verbatim>\<open>path\<close> is seen in the container.
\<close>

definition generate_mount :: "process \<Rightarrow> string \<Rightarrow> string \<Rightarrow> bool \<Rightarrow> string \<times> string" where
  "generate_mount s mount_name path read_only =
     (let path = abspath (cwd s) path;
          source_path = dirname path;
          target_path = join_path ROOT_MOUNT_DIRECTORY [mount_name];
          opts = (if read_only then ''ro'' else ''rw'');
          mount_cmd = source_path @ '':'' @ target_path @ '':'' @ opts
      in (mount_cmd, join_path target_path [basename path]))"

text \<open>
  The namespace \<^verbatim>\<open>parse_arguments()\<close> returns.
\<close>

record args =
  fasta_paths :: "string list"
  max_template_date :: string
  preset :: string
  benchmark :: bool
  models :: "string list"
  data_dir :: string
  output_dir :: string

text \<open>
  The command line, as the options the user gave: \<open>None\<close> is an option left out,
  \<open>Some v\<close> an option given with value \<open>v\<close> (for the two \<^verbatim>\<open>nargs="+"\<close> options the
  list of words that follow it); \<^verbatim>\<open>--benchmark\<close> is a flag that is present or not.
\<close>

record cli =
  opt_fasta_paths :: "string list option"
  opt_max_template_date :: "string option"
  opt_preset :: "string option"
  opt_benchmark :: bool
  opt_models :: "string list option"
  opt_data_dir :: "string option"
  opt_output_dir :: "string option"

datatype parse_error = MissingRequired | ExpectedArgument | InvalidChoice

text \<open>
  \<^verbatim>\<open>parse_arguments()\<close>: the seven \<^verbatim>\<open>add_argument\<close> declarations. \<^verbatim>\<open>--fasta-paths\<close> is
  required and takes at least one value; \<^verbatim>\<open>--preset\<close> and every value of \<^verbatim>\<open>--models\<close> must be
  among the declared choices; an option left out takes its declared default. Each error
  makes the option parser print a usage message and exit with status 2; when several apply,
  the one reported first depends on the order of the words on the command line, which the
  record \<open>cli\<close> does not keep.
\<close>

definition parse_arguments :: "process \<Rightarrow> cli \<Rightarrow> parse_error + args" where
  "parse_arguments s c =
     (case opt_fasta_paths c of
        None \<Rightarrow> Inl MissingRequired
      | Some [] \<Rightarrow> Inl ExpectedArgument
      | Some fs \<Rightarrow>
          if opt_models c = Some [] then Inl ExpectedArgument
          else if \<not> (case opt_preset c of None \<Rightarrow> True
                       | Some p \<Rightarrow> p \<in> set [''full_dbs'', ''casp14'']) then Inl InvalidChoice
          else if \<not> (case opt_models c of None \<Rightarrow> True
                       | Some ms \<Rightarrow> list_all (\<lambda>m. m \<in> set AVAILABLE_MODELS) ms) then Inl InvalidChoice
          else Inr \<lparr>
            fasta_paths = fs,
            max_template_date = (case opt_max_template_date c of None \<Rightarrow> today s | Some d \<Rightarrow> d),
            preset = (case opt_preset c of None \<Rightarrow> ''full_dbs'' | Some p \<Rightarrow> p),
            benchmark = opt_benchmark c,
            models = (case opt_models c of None \<Rightarrow> AVAILABLE_MODELS | Some ms \<Rightarrow> ms),
            data_dir = (case opt_data_dir c of None \<Rightarrow> ''./databases/'' | Some d \<Rightarrow> d),
            output_dir = (case opt_output_dir c of None \<Rightarrow> ''results/'' | Some d \<Rightarrow> d) \<rparr>)"

text \<open>
  The first loop of \<^verbatim>\<open>main\<close>, over \<^verbatim>\<open>enumerate(args.fasta_paths)\<close>: the accumulators are
  \<^verbatim>\<open>mounts\<close> and \<^verbatim>\<open>target_fasta_paths\<close>, and \<open>i\<close> is the running index.
\<close>

fun fasta_loop ::
  "process \<Rightarrow> nat \<Rightarrow> string list \<Rightarrow> string list \<times> string list \<Rightarrow> string list \<times> string list" where
  "fasta_loop s i [] acc = acc"
| "fasta_loop s i (fasta_path # rest) (mounts, target_fasta_paths) =
     (let (mount, target_path) = generate_mount s (''fasta_path_'' @ str_nat i) fasta_path True
      in fasta_loop s (Suc i) rest (mounts @ [mount], target_fasta_paths @ [target_path]))"

text \<open>The list \<^verbatim>\<open>arg_paths\<close>, with the seven database paths joined onto \<^verbatim>\<open>args.data_dir\<close>.\<close>

definition arg_paths :: "args \<Rightarrow> (string \<times> string) list" where
  "arg_paths a =
     (let uniref90_database_path = join_path (data_dir a) [''uniref90'', ''uniref90.fasta''];
          mgnify_database_path = join_path (data_dir a) [''mgnify'', ''mgy_clusters.fa''];
          bfd_database_path = join_path (data_dir a)
            [''bfd'', ''bfd_metaclust_clu_complete_id30_c90_final_seq.sorted_opt''];
          uniclust30_database_path = join_path (data_dir a)
            [''uniclust30'', ''uniclust30_2018_08'', ''uniclust30_2018_08''];
          pdb70_database_path = join_path (data_dir a) [''pdb70'', ''pdb70''];
          template_mmcif_dir = join_path (data_dir a) [''pdb_mmcif'', ''mmcif_files''];
          obsolete_pdbs_path = join_path (data_dir a) [''pdb_mmcif'', ''obsolete.dat'']
      in [(''uniref90_database_path'', uniref90_database_path),
          (''mgnify_database_path'', mgnify_database_path),
          (''uniclust30_database_path'', uniclust30_database_path),
          (''bfd_database_path'', bfd_database_path),
          (''pdb70_database_path'', pdb70_database_path),
          (''data_dir'', data_dir a),
          (''template_mmcif_dir'', template_mmcif_dir),
          (''obsolete_pdbs_path'', obsolete_pdbs_path)])"

text \<open>
  The second loop, over \<^verbatim>\<open>arg_paths\<close>: an empty path is skipped (\<^verbatim>\<open>if path:\<close>); the
  accumulators are \<^verbatim>\<open>mounts\<close> and \<^verbatim>\<open>command_args\<close>.
\<close>

fun arg_loop ::
  "process \<Rightarrow> (string \<times> string) list \<Rightarrow> string list \<times> string list \<Rightarrow> string list \<times> string list" where
  "arg_loop s [] acc = acc"
| "arg_loop s ((name, path) # rest) (mounts, command_args) =
     (if path \<noteq> [] then
        (let (mount, target_path) = generate_mount s name path True
         in arg_loop s rest (mounts @ [mount], command_args @ [''--'' @ name @ ''='' @ target_path]))
      else arg_loop s rest (mounts, command_args))"

text \<open>The dictionary \<^verbatim>\<open>env\<close>, in insertion order, and the double quote of \<^verbatim>\<open>--env="K=V"\<close>.\<close>

definition env :: "(string \<times> string) list" where
  "env = [(''TF_FORCE_UNIFIED_MEMORY'', ''1''), (''XLA_PYTHON_CLIENT_MEM_FRACTION'', ''4.0'')]"

definition dquote :: char where
  "dquote = CHR 0x22"

text \<open>
  The local variables of \<^verbatim>\<open>main\<close> once \<^verbatim>\<open>command\<close> is assembled (lines 51 to 114).
\<close>

record locals =
  mounts :: "string list"
  target_fasta_paths :: "string list"
  command_args :: "string list"
  command :: "string list"

definition main_locals :: "process \<Rightarrow> args \<Rightarrow> locals" where
  "main_locals s a =
     (let (mounts1, targets) = fasta_loop s 0 (fasta_paths a) ([], []);
          command_args1 = [''--fasta_paths='' @ str_join '','' targets];
          (mounts2, command_args2) = arg_loop s (arg_paths a) (mounts1, command_args1);
          (output_mount, output_target_path) = generate_mount s ''output'' (output_dir a) False;
          mounts3 = mounts2 @ [output_mount];
          command_args3 = command_args2 @
            [''--output_dir='' @ output_target_path,
             ''--model_names='' @ str_join '','' (models a),
             ''--max_template_date='' @ max_template_date a,
             ''--preset='' @ preset a,
             ''--benchmark='' @ str_bool (benchmark a),
             ''--logtostderr'']
      in \<lparr> mounts = mounts3,
           target_fasta_paths = targets,
           command_args = command_args3,
           command =
             [''singularity'', ''exec'', ''--nv'', ''--bind'', str_join '','' mounts3]
             @ map (\<lambda>(k, v). ''--env='' @ [dquote] @ k @ ''='' @ v @ [dquote]) env
             @ [CONTAINER_IMAGE, ''/app/run_alphafold.sh'']
             @ command_args3 \<rparr>)"

text \<open>
  The calls of \<^verbatim>\<open>generate_mount\<close> that \<^verbatim>\<open>main\<close> makes, in order, as triples of mount name,
  path and \<^verbatim>\<open>read_only\<close>: one per fasta path, one per non-empty entry of \<^verbatim>\<open>arg_paths\<close>,
  and the output directory. Lemma \<open>main_locals_mounts\<close> below shows that the mounts of
  \<open>main_locals\<close> are \<^verbatim>\<open>generate_mount\<close> applied to these triples.
\<close>

definition mount_requests :: "args \<Rightarrow> (string \<times> string \<times> bool) list" where
  "mount_requests a =
     map (\<lambda>(i, fasta_path). (''fasta_path_'' @ str_nat i, fasta_path, True))
       (enumerate 0 (fasta_paths a))
     @ map (\<lambda>(name, path). (name, path, True)) (filter (\<lambda>(name, path). path \<noteq> []) (arg_paths a))
     @ [(''output'', output_dir a, False)]"

text \<open>
  The access mode of a bind specification \<^verbatim>\<open>source:target:opts\<close>: its last field.
\<close>

definition mount_opts :: "string \<Rightarrow> string" where
  "mount_opts mount_cmd = last (split_chr CHR '':'' mount_cmd)"

text \<open>
  What \<^verbatim>\<open>subprocess.run(command)\<close> meets: the child runs and exits with a code (negative
  when a signal ends it), or it cannot be started and \<^verbatim>\<open>OSError\<close> is raised.
\<close>

datatype child = Exited int | OSError

text \<open>
  \<^verbatim>\<open>main()\<close>, with the exit status of the interpreter: 2 when the option parser rejects the
  command line, 1 when an exception escapes, 0 when \<^verbatim>\<open>main\<close> returns. \<open>run_child\<close> tells how
  the spawned command ends.
\<close>

definition main :: "process \<Rightarrow> cli \<Rightarrow> (string list \<Rightarrow> child) \<Rightarrow> int \<times> process" where
  "main s c run_child =
     (case parse_arguments s c of
        Inl e \<Rightarrow> (2, s)
      | Inr a \<Rightarrow>
          let l = main_locals s a;
              s1 = s\<lparr>stdout := stdout s @ [''Executing: '' @ str_join '' '' (command l)]\<rparr>
          in (case run_child (command l) of
                OSError \<Rightarrow> (1, s1)
              | Exited returncode \<Rightarrow> (0, s1\<lparr>spawned := spawned s1 @ [command l]\<rparr>)))"

section \<open>Example runs\<close>

text \<open>
  A process in \<^verbatim>\<open>/home/user\<close>, and the command line
  \<^verbatim>\<open>--fasta-paths /a/seq1.fasta /b/seq2.fasta --data-dir /db --output-dir /out\<close>
  with the namespace the option parser returns for it.
\<close>

definition example_process :: process where
  "example_process = \<lparr> cwd = ''/home/user'', today = ''2021-07-30'', stdout = [], spawned = [] \<rparr>"

definition example_cli :: cli where
  "example_cli = \<lparr>
     opt_fasta_paths = Some [''/a/seq1.fasta'', ''/b/seq2.fasta''],
     opt_max_template_date = None,
     opt_preset = None,
     opt_benchmark = False,
     opt_models = None,
     opt_data_dir = Some ''/db'',
     opt_output_dir = Some ''/out'' \<rparr>"

definition example_args :: args where
  "example_args = \<lparr>
     fasta_paths = [''/a/seq1.fasta'', ''/b/seq2.fasta''],
     max_template_date = ''2021-07-30'',
     preset = ''full_dbs'',
     benchmark = False,
     models = [''model_1'', ''model_2'', ''model_3'', ''model_4'', ''model_5''],
     data_dir = ''/db'',
     output_dir = ''/out'' \<rparr>"

text \<open>
  The same run with two fasta files that share the basename \<^verbatim>\<open>x.fasta\<close>.
\<close>

definition duplicate_cli :: cli where
  "duplicate_cli = example_cli \<lparr> opt_fasta_paths := Some [''/a/x.fasta'', ''/b/x.fasta''] \<rparr>"

definition duplicate_args :: args where
  "duplicate_args = example_args \<lparr> fasta_paths := [''/a/x.fasta'', ''/b/x.fasta''] \<rparr>"

section \<open>Facts about the string and path functions\<close>

lemma startswith_Cons [simp]: "startswith (x # xs) [c] = (x = c)"
  by (simp add: startswith_def)

lemma startswith_Nil [simp]: "startswith [] [c] = False"
  by (simp add: startswith_def)

lemma endswith_snoc [simp]: "endswith (xs @ [x]) [c] = (x = c)"
  by (simp add: endswith_def)

lemma endswith_Nil [simp]: "endswith [] [c] = False"
  by (simp add: endswith_def)

lemma takeWhile_length_le: "length (takeWhile P xs) \<le> length xs"
  by (induction xs) auto

lemma takeWhile_neq_rev: "c \<notin> set p \<Longrightarrow> takeWhile (\<lambda>x. x \<noteq> c) (rev p) = rev p"
  by (auto simp: takeWhile_eq_all_conv)

lemma rfind_plus1: "nat (rfind p c + 1) = length p - length (takeWhile (\<lambda>x. x \<noteq> c) (rev p))"
proof (cases "c \<in> set p")
  case True
  have "length (takeWhile (\<lambda>x. x \<noteq> c) (rev p)) \<le> length p"
    using takeWhile_length_le [of "\<lambda>x. x \<noteq> c" "rev p"] by simp
  with True show ?thesis by (simp add: rfind_def)
next
  case False
  then show ?thesis by (simp add: rfind_def takeWhile_neq_rev)
qed

lemma basename_takeWhile: "basename p = rev (takeWhile (\<lambda>x. x \<noteq> sep) (rev p))"
proof -
  let ?t = "takeWhile (\<lambda>x. x \<noteq> sep) (rev p)"
  have "basename p = drop (length p - length ?t) p"
    by (simp add: basename_def rfind_plus1)
  also have "\<dots> = rev (take (length ?t) (rev p))"
    by (simp add: rev_take)
  also have "take (length ?t) (rev p) = ?t"
    by (rule takeWhile_eq_take [symmetric])
  finally show ?thesis .
qed

lemma sep_notin_basename: "sep \<notin> set (basename p)"
  by (auto simp: basename_takeWhile dest: set_takeWhileD)

lemma basename_no_sep: "sep \<notin> set b \<Longrightarrow> basename b = b"
  by (simp add: basename_takeWhile takeWhile_neq_rev)

lemma basename_decomp: "sep \<notin> set b \<Longrightarrow> basename (q @ sep # b) = b"
  by (simp add: basename_takeWhile takeWhile_tail takeWhile_neq_rev)

lemma basename_sep_append: "basename (x @ sep # y) = basename y"
proof (cases "sep \<in> set y")
  case False
  then show ?thesis by (simp add: basename_decomp basename_no_sep)
next
  case True
  then obtain q b where y: "y = q @ sep # b" and b: "sep \<notin> set b"
    by (meson split_list_last)
  have "basename ((x @ sep # q) @ sep # b) = b" using b by (rule basename_decomp)
  moreover have "basename (q @ sep # b) = b" using b by (rule basename_decomp)
  ultimately show ?thesis by (simp add: y)
qed

lemma split_chr_not_Nil [simp]: "split_chr c p \<noteq> []"
  by (induction p) (auto split: list.splits)

lemma split_chr_no_sep: "c \<notin> set b \<Longrightarrow> split_chr c b = [b]"
  by (induction b) auto

lemma split_chr_append: "split_chr c (p @ c # b) = split_chr c p @ split_chr c b"
  by (induction p) (auto split: list.splits)

lemma last_split_chr: "last (split_chr c p) = rev (takeWhile (\<lambda>x. x \<noteq> c) (rev p))"
proof (cases "c \<in> set p")
  case False
  then show ?thesis by (simp add: split_chr_no_sep takeWhile_neq_rev)
next
  case True
  then obtain q b where p: "p = q @ c # b" and b: "c \<notin> set b"
    by (meson split_list_last)
  from b show ?thesis
    by (simp add: p split_chr_append split_chr_no_sep takeWhile_tail takeWhile_neq_rev)
qed

lemma last_split_sep: "last (split_chr sep p) = basename p"
  by (simp add: last_split_chr basename_takeWhile)

lemma splitroot_cases:
  obtains "splitroot p = ([], p)"
  | t where "p = sep # t" "splitroot p = ([sep], t)"
  | t where "p = sep # sep # t" "splitroot p = ([sep, sep], t)"
proof (cases p)
  case Nil
  then show ?thesis using that(1) by (simp add: splitroot_def)
next
  case (Cons x xs)
  show ?thesis
  proof (cases "x = sep")
    case False
    with Cons show ?thesis using that(1) by (simp add: splitroot_def)
  next
    case True
    show ?thesis
    proof (cases "splitroot p = ([sep], xs)")
      case True
      with Cons \<open>x = sep\<close> show ?thesis using that(2) by simp
    next
      case False
      with Cons \<open>x = sep\<close> obtain ys where "xs = sep # ys" "splitroot p = ([sep, sep], ys)"
        by (cases xs) (auto simp: splitroot_def split: if_splits)
      with Cons \<open>x = sep\<close> show ?thesis using that(3) by simp
    qed
  qed
qed

lemma str_join_snoc:
  "str_join d (xs @ [b]) = (if xs = [] then b else str_join d xs @ d @ b)"
  by (induction d xs rule: str_join.induct) auto

lemma normpath_step_proper:
  "b \<noteq> [] \<Longrightarrow> b \<noteq> ''.'' \<Longrightarrow> b \<noteq> ''..'' \<Longrightarrow> normpath_step r xs b = xs @ [b]"
  by (simp add: normpath_step_def)

lemma basename_root_rest:
  assumes "sep \<notin> set b"
  shows "basename ([sep] @ str_join [sep] (xs @ [b])) = b"
    and "basename ([sep, sep] @ str_join [sep] (xs @ [b])) = b"
    and "basename ([] @ str_join [sep] (xs @ [b])) = b"
proof -
  have 1: "basename (r @ str_join [sep] (xs @ [b])) = b" if "xs \<noteq> []" for r
  proof -
    have eq: "r @ str_join [sep] (xs @ [b]) = (r @ str_join [sep] xs) @ sep # b"
      using that by (simp add: str_join_snoc)
    show ?thesis unfolding eq using assms by (rule basename_decomp)
  qed
  have 2: "basename ([sep] @ b) = b" "basename ([sep, sep] @ b) = b" "basename ([] @ b) = b"
    using assms basename_decomp [of b "[]"] basename_decomp [of b "[sep]"] basename_no_sep [of b]
    by simp_all
  show "basename ([sep] @ str_join [sep] (xs @ [b])) = b"
    using 1 [of "[sep]"] 2 by (cases "xs = []") (simp_all add: str_join_snoc)
  show "basename ([sep, sep] @ str_join [sep] (xs @ [b])) = b"
    using 1 [of "[sep, sep]"] 2 by (cases "xs = []") (simp_all add: str_join_snoc)
  show "basename ([] @ str_join [sep] (xs @ [b])) = b"
    using 1 [of "[]"] 2 by (cases "xs = []") (simp_all add: str_join_snoc)
qed

lemma normalise_rest:
  assumes b: "basename t \<noteq> []" "basename t \<noteq> ''.''" "basename t \<noteq> ''..''"
  shows "\<exists>xs. foldl (normpath_step r) [] (split_chr sep t) = xs @ [basename t]"
proof -
  have "split_chr sep t = butlast (split_chr sep t) @ [basename t]"
    using append_butlast_last_id [of "split_chr sep t"] by (simp add: last_split_sep)
  then have "foldl (normpath_step r) [] (split_chr sep t)
      = normpath_step r (foldl (normpath_step r) [] (butlast (split_chr sep t))) (basename t)"
    by (metis foldl_append foldl_Cons foldl_Nil)
  with b show ?thesis by (simp add: normpath_step_proper)
qed

lemma basename_normpath:
  assumes b: "basename p \<noteq> []" "basename p \<noteq> ''.''" "basename p \<noteq> ''..''"
  shows "basename (normpath p) = basename p"
proof -
  from b(1) have ne: "p \<noteq> []" by (auto simp: basename_def)
  have nosep: "sep \<notin> set (basename p)" by (rule sep_notin_basename)
  show ?thesis
  proof (cases p rule: splitroot_cases)
    case 1
    from normalise_rest [OF b, of "[]"] obtain xs
      where xs: "foldl (normpath_step []) [] (split_chr sep p) = xs @ [basename p]" by blast
    have "str_join [sep] (xs @ [basename p]) \<noteq> []"
      using b(1) by (simp add: str_join_snoc)
    then show ?thesis
      using ne 1 xs basename_root_rest(3) [OF nosep, of xs] by (simp add: normpath_def)
  next
    case (2 t)
    have bt: "basename t = basename p"
      using basename_sep_append [of "[]" t] 2(1) by simp
    from normalise_rest [of t "[sep]"] b bt obtain xs
      where xs: "foldl (normpath_step [sep]) [] (split_chr sep t) = xs @ [basename p]" by auto
    show ?thesis
      using ne 2(2) xs basename_root_rest(1) [OF nosep, of xs] by (simp add: normpath_def)
  next
    case (3 t)
    have bt: "basename t = basename p"
      using basename_sep_append [of "[sep]" t] 3(1) by simp
    from normalise_rest [of t "[sep, sep]"] b bt obtain xs
      where xs: "foldl (normpath_step [sep, sep]) [] (split_chr sep t) = xs @ [basename p]" by auto
    show ?thesis
      using ne 3(2) xs basename_root_rest(2) [OF nosep, of xs] by (simp add: normpath_def)
  qed
qed

lemma join_path_single [simp]: "join_path a [b] = join_step a b"
  by (simp add: join_path_def)

lemma basename_join_step: "basename b \<noteq> [] \<Longrightarrow> basename (join_step wd b) = basename b"
proof (cases "wd = [] \<or> startswith b [sep]")
  case True
  then show ?thesis by (auto simp: join_step_def)
next
  case False
  then obtain w c where wd: "wd = w @ [c]" by (meson rev_exhaust)
  show ?thesis
  proof (cases "c = sep")
    case True
    with False wd show ?thesis
      using basename_sep_append [of w b] by (simp add: join_step_def)
  next
    case False
    with \<open>\<not> (wd = [] \<or> startswith b [sep])\<close> wd show ?thesis
      using basename_sep_append [of wd b] by (simp add: join_step_def)
  qed
qed

lemma basename_abspath:
  assumes "basename p \<noteq> []" "basename p \<noteq> ''.''" "basename p \<noteq> ''..''"
  shows "basename (abspath wd p) = basename p"
proof -
  let ?q = "if startswith p [sep] then p else join_path wd [p]"
  have q: "basename ?q = basename p"
    using assms(1) by (simp add: basename_join_step)
  have "basename (normpath ?q) = basename ?q"
  proof (rule basename_normpath)
    show "basename ?q \<noteq> []" unfolding q by (rule assms(1))
    show "basename ?q \<noteq> ''.''" unfolding q by (rule assms(2))
    show "basename ?q \<noteq> ''..''" unfolding q by (rule assms(3))
  qed
  then show ?thesis unfolding abspath_def q .
qed

section \<open>Facts about the launcher\<close>

lemma digit_neq_sep: "d < 10 \<Longrightarrow> digit d \<noteq> sep"
proof
  assume d: "d < 10" and "digit d = sep"
  then have "of_char (char_of (48 + d)) = (of_char CHR ''/'' :: nat)"
    by (simp add: digit_def sep_def)
  with d show False by simp
qed

lemma digit_inj: "d < 10 \<Longrightarrow> e < 10 \<Longrightarrow> digit d = digit e \<Longrightarrow> d = e"
proof -
  assume d: "d < 10" and e: "e < 10" and "digit d = digit e"
  then have "(of_char (char_of (48 + d)) :: nat) = of_char (char_of (48 + e))"
    by (simp add: digit_def)
  with d e show "d = e" by simp
qed

lemma str_nat_not_Nil [simp]: "str_nat n \<noteq> []"
  by (subst str_nat.simps) simp

lemma Nil_neq_str_nat [simp]: "[] \<noteq> str_nat n"
  using str_nat_not_Nil [of n] by (simp del: str_nat_not_Nil)

lemma sep_notin_str_nat: "sep \<notin> set (str_nat n)"
proof (induction n rule: str_nat.induct)
  case (1 n)
  show ?case
  proof (cases "n < 10")
    case True
    then show ?thesis using digit_neq_sep [of n] by (subst str_nat.simps) auto
  next
    case False
    have "n mod 10 < 10" by simp
    then have "digit (n mod 10) \<noteq> sep" by (rule digit_neq_sep)
    with False 1 show ?thesis by (subst str_nat.simps) auto
  qed
qed

lemma str_nat_inj: "str_nat n = str_nat m \<Longrightarrow> n = m"
proof (induction n arbitrary: m rule: str_nat.induct)
  case (1 n)
  show ?case
  proof (cases "n < 10")
    case n: True
    show ?thesis
    proof (cases "m < 10")
      case True
      with n 1(2) show ?thesis
        by (auto simp: str_nat.simps [of n] str_nat.simps [of m] dest: digit_inj)
    next
      case False
      with n 1(2) show ?thesis
        by (auto simp: str_nat.simps [of n] str_nat.simps [of m])
    qed
  next
    case n: False
    show ?thesis
    proof (cases "m < 10")
      case True
      with n 1(2) show ?thesis
        by (auto simp: str_nat.simps [of n] str_nat.simps [of m])
    next
      case False
      with n 1(2) have a: "str_nat (n div 10) = str_nat (m div 10)"
        and b: "digit (n mod 10) = digit (m mod 10)"
        by (auto simp: str_nat.simps [of n] str_nat.simps [of m])
      from 1(1) [OF n a] have "n div 10 = m div 10" .
      moreover from b have "n mod 10 = m mod 10" by (intro digit_inj) simp_all
      ultimately show ?thesis by (metis div_mult_mod_eq)
    qed
  qed
qed

lemma generate_mount_eq:
  "generate_mount s n p ro =
     (dirname (abspath (cwd s) p) @ '':'' @ join_path ROOT_MOUNT_DIRECTORY [n] @ '':''
        @ (if ro then ''ro'' else ''rw''),
      join_path (join_path ROOT_MOUNT_DIRECTORY [n]) [basename (abspath (cwd s) p)])"
  by (simp add: generate_mount_def Let_def)

lemma fasta_loop_eq:
  "fasta_loop s i ps (ms, ts) =
     (ms @ map (\<lambda>(k, p). fst (generate_mount s (''fasta_path_'' @ str_nat k) p True)) (enumerate i ps),
      ts @ map (\<lambda>(k, p). snd (generate_mount s (''fasta_path_'' @ str_nat k) p True)) (enumerate i ps))"
  by (induction ps arbitrary: i ms ts) (simp_all add: case_prod_beta)

lemma arg_loop_eq:
  "arg_loop s xs (ms, cs) =
     (ms @ map (\<lambda>(n, p). fst (generate_mount s n p True)) (filter (\<lambda>(n, p). p \<noteq> []) xs),
      cs @ map (\<lambda>(n, p). ''--'' @ n @ ''='' @ snd (generate_mount s n p True))
             (filter (\<lambda>(n, p). p \<noteq> []) xs))"
  by (induction xs arbitrary: ms cs) (auto simp: case_prod_beta)

lemma main_locals_mounts:
  "mounts (main_locals s a) = map (\<lambda>(n, p, ro). fst (generate_mount s n p ro)) (mount_requests a)"
  by (simp add: main_locals_def mount_requests_def fasta_loop_eq arg_loop_eq case_prod_beta comp_def Let_def)

lemma main_locals_targets:
  "target_fasta_paths (main_locals s a) =
     map (\<lambda>(k, p). snd (generate_mount s (''fasta_path_'' @ str_nat k) p True))
       (enumerate 0 (fasta_paths a))"
  by (simp add: main_locals_def fasta_loop_eq arg_loop_eq case_prod_beta Let_def)

lemma main_locals_command_args:
  "command_args (main_locals s a) =
     [''--fasta_paths='' @ str_join '','' (target_fasta_paths (main_locals s a))]
     @ map (\<lambda>(n, p). ''--'' @ n @ ''='' @ snd (generate_mount s n p True))
         (filter (\<lambda>(n, p). p \<noteq> []) (arg_paths a))
     @ [''--output_dir='' @ snd (generate_mount s ''output'' (output_dir a) False),
        ''--model_names='' @ str_join '','' (models a),
        ''--max_template_date='' @ max_template_date a,
        ''--preset='' @ preset a,
        ''--benchmark='' @ str_bool (benchmark a),
        ''--logtostderr'']"
  by (simp add: main_locals_def fasta_loop_eq arg_loop_eq case_prod_beta Let_def)

lemma main_locals_command:
  "command (main_locals s a) =
     [''singularity'', ''exec'', ''--nv'', ''--bind'', str_join '','' (mounts (main_locals s a)),
      ''--env='' @ [dquote] @ ''TF_FORCE_UNIFIED_MEMORY=1'' @ [dquote],
      ''--env='' @ [dquote] @ ''XLA_PYTHON_CLIENT_MEM_FRACTION=4.0'' @ [dquote],
      CONTAINER_IMAGE, ''/app/run_alphafold.sh'']
     @ command_args (main_locals s a)"
  by (simp add: main_locals_def fasta_loop_eq arg_loop_eq case_prod_beta env_def Let_def)

lemma startswith_iff: "startswith b [c] = (b \<noteq> [] \<and> hd b = c)"
  by (cases b) simp_all

lemma endswith_iff: "endswith a [c] = (a \<noteq> [] \<and> last a = c)"
  by (cases a rule: rev_cases) simp_all

lemma join_step_plain:
  "\<not> startswith b [sep] \<Longrightarrow> a \<noteq> [] \<Longrightarrow> last a \<noteq> sep \<Longrightarrow> join_step a b = a @ sep # b"
  by (simp add: join_step_def endswith_iff)

lemma not_startswith_no_sep: "sep \<notin> set b \<Longrightarrow> \<not> startswith b [sep]"
  by (cases b) auto

lemma mount_target_plain:
  "\<not> startswith n [sep] \<Longrightarrow> join_path ROOT_MOUNT_DIRECTORY [n] = ''/mnt/'' @ n"
  by (simp add: ROOT_MOUNT_DIRECTORY_def join_step_plain sep_def)

lemma join_path_two: "join_path a [b, c] = join_path (join_path a [b]) [c]"
  by (simp add: join_path_def)

lemma append_sep_inj:
  assumes "c \<notin> set x" "c \<notin> set y" "x @ c # u = y @ c # v"
  shows "x = y"
proof -
  have "takeWhile (\<lambda>z. z \<noteq> c) (x @ c # u) = x"
    using assms(1) by (auto simp: takeWhile_tail takeWhile_eq_all_conv)
  moreover have "takeWhile (\<lambda>z. z \<noteq> c) (y @ c # v) = y"
    using assms(2) by (auto simp: takeWhile_tail takeWhile_eq_all_conv)
  ultimately show ?thesis using assms(3) by simp
qed

lemma fasta_target_eq:
  "snd (generate_mount s (''fasta_path_'' @ str_nat k) p True)
     = ''/mnt/fasta_path_'' @ str_nat k @ ''/'' @ basename (abspath (cwd s) p)"
proof -
  let ?n = "''fasta_path_'' @ str_nat k"
  let ?b = "basename (abspath (cwd s) p)"
  have t: "join_path ROOT_MOUNT_DIRECTORY [?n] = ''/mnt/'' @ ?n"
    by (rule mount_target_plain) (simp add: sep_def)
  have "sep \<notin> set (str_nat k)" by (rule sep_notin_str_nat)
  then have "last (str_nat k) \<noteq> sep"
    by (metis last_in_set str_nat_not_Nil)
  then have l: "last (''/mnt/'' @ ?n) \<noteq> sep"
    by simp
  have "\<not> startswith ?b [sep]"
    by (rule not_startswith_no_sep) (rule sep_notin_basename)
  then have j: "join_step (''/mnt/'' @ ?n) ?b = (''/mnt/'' @ ?n) @ sep # ?b"
    using l by (intro join_step_plain) simp_all
  have "snd (generate_mount s ?n p True) = join_path (join_path ROOT_MOUNT_DIRECTORY [?n]) [?b]"
    by (simp only: generate_mount_eq snd_conv)
  also have "\<dots> = join_step (''/mnt/'' @ ?n) ?b"
    unfolding t by (simp only: join_path_single)
  also have "\<dots> = (''/mnt/'' @ ?n) @ sep # ?b"
    by (rule j)
  also have "\<dots> = ''/mnt/fasta_path_'' @ str_nat k @ ''/'' @ ?b"
    by (simp add: sep_def)
  finally show ?thesis .
qed

lemma main_locals_target_nth:
  assumes "i < length (fasta_paths a)"
  shows "target_fasta_paths (main_locals s a) ! i
    = ''/mnt/fasta_path_'' @ str_nat i @ ''/'' @ basename (abspath (cwd s) (fasta_paths a ! i))"
  using assms
  by (simp only: main_locals_targets nth_map length_enumerate nth_enumerate_eq prod.case
      fasta_target_eq add.left_neutral)

lemma mount_opts_generate_mount:
  "mount_opts (fst (generate_mount s n p ro)) = (if ro then ''ro'' else ''rw'')"
  by (cases ro) (simp_all add: generate_mount_eq mount_opts_def last_split_chr)

lemma mount_requests_snoc:
  "mount_requests a =
     (map (\<lambda>(i, fasta_path). (''fasta_path_'' @ str_nat i, fasta_path, True))
        (enumerate 0 (fasta_paths a))
      @ map (\<lambda>(name, path). (name, path, True))
          (filter (\<lambda>(name, path). path \<noteq> []) (arg_paths a)))
     @ [(''output'', output_dir a, False)]"
  by (simp add: mount_requests_def)

lemma butlast_requests_read_only:
  "(n, p, ro) \<in> set (butlast (mount_requests a)) \<Longrightarrow> ro"
  unfolding mount_requests_snoc butlast_snoc by auto

lemma main_accepted:
  assumes "parse_arguments s c = Inr a"
  shows "main s c run_child =
    (case run_child (command (main_locals s a)) of
       OSError \<Rightarrow>
         (1, s\<lparr>stdout := stdout s @ [''Executing: '' @ str_join '' '' (command (main_locals s a))]\<rparr>)
     | Exited returncode \<Rightarrow>
         (0, s\<lparr>stdout := stdout s @ [''Executing: '' @ str_join '' '' (command (main_locals s a))],
               spawned := spawned s @ [command (main_locals s a)]\<rparr>))"
  using assms by (simp add: main_def Let_def split: child.splits)

lemma parse_arguments_Inr:
  assumes "parse_arguments s c = Inr a"
  shows "opt_fasta_paths c = Some (fasta_paths a)"
    and "fasta_paths a \<noteq> []"
    and "benchmark a = opt_benchmark c"
    and "models a = (case opt_models c of None \<Rightarrow> AVAILABLE_MODELS | Some ms \<Rightarrow> ms)"
  using assms
  by (auto simp: parse_arguments_def split: option.splits list.splits if_splits)

lemma arg_paths_names:
  assumes "(n, p) \<in> set (arg_paths a)"
  shows "n \<in> set [''uniref90_database_path'', ''mgnify_database_path'',
    ''uniclust30_database_path'', ''bfd_database_path'', ''pdb70_database_path'', ''data_dir'',
    ''template_mmcif_dir'', ''obsolete_pdbs_path'']"
  using assms by (auto simp: arg_paths_def Let_def)

lemma mount_request_name:
  assumes "(n, p, r) \<in> set (mount_requests a)"
  shows "\<not> startswith n [sep]"
proof -
  from assms consider (fasta) i where "n = ''fasta_path_'' @ str_nat i"
    | (arg) "(n, p) \<in> set (arg_paths a)"
    | (out) "n = ''output''"
    by (auto simp: mount_requests_def)
  then show ?thesis
  proof cases
    case fasta
    then show ?thesis by (simp add: sep_def)
  next
    case arg
    from arg_paths_names [OF this] show ?thesis by (auto simp: sep_def)
  next
    case out
    then show ?thesis by (simp add: sep_def)
  qed
qed

lemma filter_map_none: "(\<And>x. x \<in> set xs \<Longrightarrow> \<not> P (f x)) \<Longrightarrow> filter P (map f xs) = []"
  by (induction xs) auto

lemma arg_flag_not_benchmark:
  assumes "(n, p) \<in> set (arg_paths a)"
  shows "\<not> startswith (''--'' @ n @ ''='' @ t) ''--benchmark''"
  using arg_paths_names [OF assms] by (auto simp: startswith_def)

lemma arg_flags_not_benchmark:
  "filter (\<lambda>x. startswith x ''--benchmark'')
     (map (\<lambda>(n, p). ''--'' @ n @ ''='' @ snd (generate_mount s n p True))
        (filter (\<lambda>(n, p). p \<noteq> []) (arg_paths a))) = []"
  by (rule filter_map_none) (auto dest: arg_flag_not_benchmark)

section \<open>The claims\<close>

subsection \<open>C1: the end-to-end example\<close>

text \<open>
  C1 (as amended). For the run \<^verbatim>\<open>--fasta-paths /a/seq1.fasta /b/seq2.fasta --data-dir /db
  --output-dir /out\<close> with every other option at its default, the mounts are exactly
  \<^verbatim>\<open>/a:/mnt/fasta_path_0:ro\<close>, \<^verbatim>\<open>/b:/mnt/fasta_path_1:ro\<close>, one read-only mount for each of
  the seven database paths under \<^verbatim>\<open>/db\<close> and for \<^verbatim>\<open>/db\<close> itself, each binding the parent
  directory of its path, and \<^verbatim>\<open>/:/mnt/output:rw\<close>, which binds the parent directory of
  \<^verbatim>\<open>/out\<close>; the command contains the flag
  \<^verbatim>\<open>--fasta_paths=/mnt/fasta_path_0/seq1.fasta,/mnt/fasta_path_1/seq2.fasta\<close>.
\<close>

theorem C1_example_invocation:
  assumes "parse_arguments s example_cli = Inr a"
  shows "mounts (main_locals s a) =
           [''/a:/mnt/fasta_path_0:ro'',
            ''/b:/mnt/fasta_path_1:ro'',
            ''/db/uniref90:/mnt/uniref90_database_path:ro'',
            ''/db/mgnify:/mnt/mgnify_database_path:ro'',
            ''/db/uniclust30/uniclust30_2018_08:/mnt/uniclust30_database_path:ro'',
            ''/db/bfd:/mnt/bfd_database_path:ro'',
            ''/db/pdb70:/mnt/pdb70_database_path:ro'',
            ''/:/mnt/data_dir:ro'',
            ''/db/pdb_mmcif:/mnt/template_mmcif_dir:ro'',
            ''/db/pdb_mmcif:/mnt/obsolete_pdbs_path:ro'',
            ''/:/mnt/output:rw'']
         \<and> ''--fasta_paths=/mnt/fasta_path_0/seq1.fasta,/mnt/fasta_path_1/seq2.fasta''
             \<in> set (command (main_locals s a))"
proof -
  from assms have a: "a = example_args\<lparr>max_template_date := today s\<rparr>"
    by (simp add: parse_arguments_def example_cli_def example_args_def AVAILABLE_MODELS_def)
  show ?thesis unfolding a by code_simp
qed

theorem C1_example_invocation_witness:
  "mounts (main_locals example_process example_args) =
           [''/a:/mnt/fasta_path_0:ro'',
            ''/b:/mnt/fasta_path_1:ro'',
            ''/db/uniref90:/mnt/uniref90_database_path:ro'',
            ''/db/mgnify:/mnt/mgnify_database_path:ro'',
            ''/db/uniclust30/uniclust30_2018_08:/mnt/uniclust30_database_path:ro'',
            ''/db/bfd:/mnt/bfd_database_path:ro'',
            ''/db/pdb70:/mnt/pdb70_database_path:ro'',
            ''/:/mnt/data_dir:ro'',
            ''/db/pdb_mmcif:/mnt/template_mmcif_dir:ro'',
            ''/db/pdb_mmcif:/mnt/obsolete_pdbs_path:ro'',
            ''/:/mnt/output:rw'']
         \<and> ''--fasta_paths=/mnt/fasta_path_0/seq1.fasta,/mnt/fasta_path_1/seq2.fasta''
             \<in> set (command (main_locals example_process example_args))"
proof -
  have "parse_arguments example_process example_cli = Inr example_args"
    by code_simp
  then show ?thesis by (rule C1_example_invocation)
qed

text \<open>
  C1 as the specification words it asks for the mount \<^verbatim>\<open>/out:/mnt/output:rw\<close>. The run has
  no such mount: \<^verbatim>\<open>generate_mount\<close> binds the parent directory of every path, also of the
  output directory.
\<close>

theorem C1_output_mount_counterexample:
  "parse_arguments example_process example_cli = Inr example_args
   \<and> ''/out:/mnt/output:rw'' \<notin> set (mounts (main_locals example_process example_args))"
  by code_simp

subsection \<open>C2: the container-visible path\<close>

text \<open>
  C2 (as amended). For every host path \<open>P\<close> and mount name \<open>N\<close>, the container-visible
  path that \<^verbatim>\<open>generate_mount\<close> computes is the mount root joined with \<open>N\<close> joined with the
  basename of the resolved path \<^verbatim>\<open>abspath(P)\<close>. Whenever the last component of \<open>P\<close> is a
  name (not empty, not \<^verbatim>\<open>.\<close> and not \<^verbatim>\<open>..\<close>), that is the basename of \<open>P\<close> itself, and
  the result depends on \<open>N\<close> and \<^verbatim>\<open>basename(P)\<close> only: not on the directory part of \<open>P\<close>,
  the working directory or the access mode.
\<close>

theorem C2_container_path:
  "snd (generate_mount s N P ro)
     = join_path ROOT_MOUNT_DIRECTORY [N, basename (abspath (cwd s) P)]
   \<and> (basename P \<noteq> [] \<and> basename P \<noteq> ''.'' \<and> basename P \<noteq> ''..'' \<longrightarrow>
        snd (generate_mount s N P ro) = join_path ROOT_MOUNT_DIRECTORY [N, basename P])"
  by (simp add: generate_mount_eq join_path_two basename_abspath del: join_path_single)

theorem C2_container_path_witness:
  "snd (generate_mount example_process ''fasta_path_0'' ''/a/seq1.fasta'' True)
     = join_path ROOT_MOUNT_DIRECTORY [''fasta_path_0'', basename ''/a/seq1.fasta'']
   \<and> basename ''/a/seq1.fasta'' = ''seq1.fasta''"
proof -
  have b: "basename ''/a/seq1.fasta'' = ''seq1.fasta''" by code_simp
  have "basename ''/a/seq1.fasta'' \<noteq> [] \<and> basename ''/a/seq1.fasta'' \<noteq> ''.''
      \<and> basename ''/a/seq1.fasta'' \<noteq> ''..''"
    unfolding b by simp
  with C2_container_path [of example_process "''fasta_path_0''" "''/a/seq1.fasta''" True]
  have "snd (generate_mount example_process ''fasta_path_0'' ''/a/seq1.fasta'' True)
     = join_path ROOT_MOUNT_DIRECTORY [''fasta_path_0'', basename ''/a/seq1.fasta'']"
    by blast
  with b show ?thesis by blast
qed

text \<open>
  C2 as the specification words it, for every host path, fails at the script's own default
  output directory \<^verbatim>\<open>results/\<close>: its basename is empty, but the path is resolved first and
  is seen as \<^verbatim>\<open>/mnt/output/results\<close>. The paths \<^verbatim>\<open>results/\<close> and \<^verbatim>\<open>other/\<close> have the same
  basename and the same mount name, and different container-visible paths.
\<close>

theorem C2_basename_counterexample:
  "snd (generate_mount example_process ''output'' ''results/'' False) = ''/mnt/output/results''
   \<and> join_path ROOT_MOUNT_DIRECTORY [''output'', basename ''results/''] = ''/mnt/output/''
   \<and> basename ''results/'' = basename ''other/''
   \<and> snd (generate_mount example_process ''output'' ''other/'' False) = ''/mnt/output/other''"
  by code_simp

subsection \<open>C3: fasta paths with the same basename\<close>

text \<open>
  C3 (as amended). The planner has no error result and does not compare basenames. For every
  two positions \<open>i < j\<close> of the fasta list, whatever the basenames and directories of the two
  paths, the container-visible paths are
  \<^verbatim>\<open>/mnt/fasta_path_<i>/<basename>\<close> and \<^verbatim>\<open>/mnt/fasta_path_<j>/<basename>\<close>, which never collide:
  each fasta path is mounted under a target of its own.
\<close>

theorem C3_fasta_targets_distinct:
  assumes "i < j" and "j < length (fasta_paths a)"
  shows "length (target_fasta_paths (main_locals s a)) = length (fasta_paths a)
    \<and> target_fasta_paths (main_locals s a) ! i
        = ''/mnt/fasta_path_'' @ str_nat i @ ''/'' @ basename (abspath (cwd s) (fasta_paths a ! i))
    \<and> target_fasta_paths (main_locals s a) ! j
        = ''/mnt/fasta_path_'' @ str_nat j @ ''/'' @ basename (abspath (cwd s) (fasta_paths a ! j))
    \<and> target_fasta_paths (main_locals s a) ! i \<noteq> target_fasta_paths (main_locals s a) ! j"
proof -
  from assms have i: "i < length (fasta_paths a)" by simp
  note ti = main_locals_target_nth [OF i, of s]
  note tj = main_locals_target_nth [OF assms(2), of s]
  have "target_fasta_paths (main_locals s a) ! i \<noteq> target_fasta_paths (main_locals s a) ! j"
  proof
    assume "target_fasta_paths (main_locals s a) ! i = target_fasta_paths (main_locals s a) ! j"
    then have "str_nat i @ sep # basename (abspath (cwd s) (fasta_paths a ! i))
        = str_nat j @ sep # basename (abspath (cwd s) (fasta_paths a ! j))"
      by (simp add: ti tj sep_def)
    then have "str_nat i = str_nat j"
      by (rule append_sep_inj [OF sep_notin_str_nat sep_notin_str_nat])
    then have "i = j" by (rule str_nat_inj)
    with assms(1) show False by simp
  qed
  then show ?thesis using ti tj by (simp add: main_locals_targets)
qed

theorem C3_fasta_targets_distinct_witness:
  "target_fasta_paths (main_locals example_process duplicate_args) ! 0
     \<noteq> target_fasta_paths (main_locals example_process duplicate_args) ! 1"
proof -
  have "(0::nat) < 1" and "1 < length (fasta_paths duplicate_args)"
    by (simp_all add: duplicate_args_def example_args_def)
  from C3_fasta_targets_distinct [OF this, of example_process] show ?thesis by blast
qed

text \<open>
  C3 as the specification words it says that two fasta paths with the same basename and
  different directories are rejected or get equal container-visible paths. For
  \<^verbatim>\<open>/a/x.fasta\<close> and \<^verbatim>\<open>/b/x.fasta\<close> the option parser accepts the command line, and the two
  container-visible paths differ.
\<close>

theorem C3_duplicate_basename_counterexample:
  "parse_arguments example_process duplicate_cli = Inr duplicate_args
   \<and> basename ''/a/x.fasta'' = basename ''/b/x.fasta''
   \<and> dirname ''/a/x.fasta'' \<noteq> dirname ''/b/x.fasta''
   \<and> target_fasta_paths (main_locals example_process duplicate_args)
       = [''/mnt/fasta_path_0/x.fasta'', ''/mnt/fasta_path_1/x.fasta'']
   \<and> ''/mnt/fasta_path_0/x.fasta'' \<noteq> ''/mnt/fasta_path_1/x.fasta''"
  by code_simp

subsection \<open>C4: one read-write mount\<close>

text \<open>
  C4. In every run the list of mounts ends with the mount of the output directory, whose
  access mode is \<^verbatim>\<open>rw\<close>; every mount before it has access mode \<^verbatim>\<open>ro\<close>; so exactly one
  mount of the run is read-write.
\<close>

theorem C4_one_read_write_mount:
  "mounts (main_locals s a) \<noteq> []
   \<and> last (mounts (main_locals s a)) = fst (generate_mount s ''output'' (output_dir a) False)
   \<and> mount_opts (last (mounts (main_locals s a))) = ''rw''
   \<and> (\<forall>m \<in> set (butlast (mounts (main_locals s a))). mount_opts m = ''ro'')
   \<and> length (filter (\<lambda>m. mount_opts m = ''rw'') (mounts (main_locals s a))) = 1"
proof -
  let ?f = "\<lambda>(n, p, ro). fst (generate_mount s n p ro)"
  let ?ms = "mounts (main_locals s a)"
  have "mount_requests a = butlast (mount_requests a) @ [(''output'', output_dir a, False)]"
    by (metis mount_requests_snoc butlast_snoc)
  then have "?ms = map ?f (butlast (mount_requests a) @ [(''output'', output_dir a, False)])"
    by (simp only: main_locals_mounts)
  then have ms: "?ms = map ?f (butlast (mount_requests a))
      @ [fst (generate_mount s ''output'' (output_dir a) False)]"
    by simp
  have ro: "mount_opts m = ''ro''" if "m \<in> set (map ?f (butlast (mount_requests a)))" for m
  proof -
    from that obtain n p r where in_reqs: "(n, p, r) \<in> set (butlast (mount_requests a))"
      and m: "m = fst (generate_mount s n p r)" by auto
    from in_reqs have r by (rule butlast_requests_read_only)
    then show ?thesis by (simp add: m mount_opts_generate_mount)
  qed
  have rw: "mount_opts (fst (generate_mount s ''output'' (output_dir a) False)) = ''rw''"
    by (simp add: mount_opts_generate_mount)
  have "filter (\<lambda>m. mount_opts m = ''rw'') (map ?f (butlast (mount_requests a))) = []"
    using ro by (auto simp: filter_empty_conv)
  then have "length (filter (\<lambda>m. mount_opts m = ''rw'') ?ms) = 1"
    unfolding ms by (simp add: rw)
  moreover have "\<forall>m \<in> set (butlast ?ms). mount_opts m = ''ro''"
    unfolding ms butlast_snoc using ro by blast
  moreover have "last ?ms = fst (generate_mount s ''output'' (output_dir a) False)"
    unfolding ms by simp
  moreover have "?ms \<noteq> []" unfolding ms by simp
  ultimately show ?thesis using rw by simp
qed

theorem C4_one_read_write_mount_witness:
  "mount_opts (last (mounts (main_locals example_process example_args))) = ''rw''
   \<and> length (filter (\<lambda>m. mount_opts m = ''rw'') (mounts (main_locals example_process example_args))) = 1
   \<and> map mount_opts (mounts (main_locals example_process example_args))
       = [''ro'', ''ro'', ''ro'', ''ro'', ''ro'', ''ro'', ''ro'', ''ro'', ''ro'', ''ro'', ''rw'']"
proof -
  have "map mount_opts (mounts (main_locals example_process example_args))
       = [''ro'', ''ro'', ''ro'', ''ro'', ''ro'', ''ro'', ''ro'', ''ro'', ''ro'', ''ro'', ''rw'']"
    by code_simp
  with C4_one_read_write_mount [of example_process example_args] show ?thesis by blast
qed

subsection \<open>C5: the shape of the command\<close>

text \<open>
  C5. In every run the command handed to \<^verbatim>\<open>subprocess.run\<close> is \<^verbatim>\<open>singularity\<close>, \<^verbatim>\<open>exec\<close>,
  \<^verbatim>\<open>--nv\<close>, \<^verbatim>\<open>--bind\<close> and the comma-joined mounts, then the two arguments
  \<^verbatim>\<open>--env="TF_FORCE_UNIFIED_MEMORY=1"\<close> and \<^verbatim>\<open>--env="XLA_PYTHON_CLIENT_MEM_FRACTION=4.0"\<close>, the
  image \<^verbatim>\<open>docker://catgumag/alphafold:latest\<close>, the entry point \<^verbatim>\<open>/app/run_alphafold.sh\<close>, and
  the rewritten flags, the last of which is \<^verbatim>\<open>--logtostderr\<close>.
\<close>

theorem C5_command_shape:
  "command (main_locals s a) =
     [''singularity'', ''exec'', ''--nv'', ''--bind'', str_join '','' (mounts (main_locals s a)),
      ''--env='' @ [dquote] @ ''TF_FORCE_UNIFIED_MEMORY=1'' @ [dquote],
      ''--env='' @ [dquote] @ ''XLA_PYTHON_CLIENT_MEM_FRACTION=4.0'' @ [dquote],
      ''docker://catgumag/alphafold:latest'',
      ''/app/run_alphafold.sh'']
     @ command_args (main_locals s a)
   \<and> command_args (main_locals s a) \<noteq> []
   \<and> last (command_args (main_locals s a)) = ''--logtostderr''"
proof -
  have "command_args (main_locals s a) \<noteq> []"
    and "last (command_args (main_locals s a)) = ''--logtostderr''"
    by (simp_all add: main_locals_command_args)
  then show ?thesis
    by (simp only: main_locals_command CONTAINER_IMAGE_def simp_thms)
qed

theorem C5_command_shape_witness:
  "command (main_locals example_process example_args) =
     [''singularity'', ''exec'', ''--nv'', ''--bind'',
      str_join '','' (mounts (main_locals example_process example_args)),
      ''--env='' @ [dquote] @ ''TF_FORCE_UNIFIED_MEMORY=1'' @ [dquote],
      ''--env='' @ [dquote] @ ''XLA_PYTHON_CLIENT_MEM_FRACTION=4.0'' @ [dquote],
      ''docker://catgumag/alphafold:latest'',
      ''/app/run_alphafold.sh'']
     @ command_args (main_locals example_process example_args)
   \<and> command_args (main_locals example_process example_args) \<noteq> []
   \<and> last (command_args (main_locals example_process example_args)) = ''--logtostderr''"
  by (rule C5_command_shape)

subsection \<open>C6: printing, spawning and the exit status\<close>

text \<open>
  C6. In every run whose command line the option parser accepts and whose child process runs
  and exits, with whatever code, \<^verbatim>\<open>main\<close> prints the line \<^verbatim>\<open>Executing: \<close> followed by the
  space-joined command, spawns that one command and waits for it, and the exit status of the
  parent is 0: the child's exit code is neither looked at nor passed on.
\<close>

theorem C6_exit_status_independent:
  assumes "parse_arguments s c = Inr a"
    and "run_child (command (main_locals s a)) = Exited returncode"
  shows "main s c run_child =
    (0, s\<lparr>stdout := stdout s @ [''Executing: '' @ str_join '' '' (command (main_locals s a))],
          spawned := spawned s @ [command (main_locals s a)]\<rparr>)"
  using assms(2) by (simp add: main_accepted [OF assms(1)])

theorem C6_exit_status_independent_witness:
  "main example_process example_cli (\<lambda>command. Exited 1) =
    (0, example_process
          \<lparr>stdout := stdout example_process
             @ [''Executing: '' @ str_join '' '' (command (main_locals example_process example_args))],
           spawned := spawned example_process
             @ [command (main_locals example_process example_args)]\<rparr>)"
proof -
  have "parse_arguments example_process example_cli = Inr example_args"
    by code_simp
  then show ?thesis
    by (rule C6_exit_status_independent) simp
qed

subsection \<open>C7: distinct mount names, distinct targets\<close>

text \<open>
  C7. The mounts of a run are \<^verbatim>\<open>generate_mount\<close> applied to the run's requests. The target
  in a bind specification is the root \<^verbatim>\<open>/mnt\<close> joined with the mount name, a function of the
  name alone; for two requests of a run with distinct mount names the targets are
  \<^verbatim>\<open>/mnt/<name>\<close> and are distinct.
\<close>

theorem C7_mount_targets_distinct:
  assumes "(n1, p1, r1) \<in> set (mount_requests a)"
    and "(n2, p2, r2) \<in> set (mount_requests a)"
    and "n1 \<noteq> n2"
  shows "mounts (main_locals s a)
           = map (\<lambda>(n, p, ro). fst (generate_mount s n p ro)) (mount_requests a)
    \<and> fst (generate_mount s n1 p1 r1)
         = dirname (abspath (cwd s) p1) @ '':'' @ join_path ROOT_MOUNT_DIRECTORY [n1] @ '':''
             @ (if r1 then ''ro'' else ''rw'')
    \<and> join_path ROOT_MOUNT_DIRECTORY [n1] = ''/mnt/'' @ n1
    \<and> join_path ROOT_MOUNT_DIRECTORY [n2] = ''/mnt/'' @ n2
    \<and> join_path ROOT_MOUNT_DIRECTORY [n1] \<noteq> join_path ROOT_MOUNT_DIRECTORY [n2]"
proof -
  have t1: "join_path ROOT_MOUNT_DIRECTORY [n1] = ''/mnt/'' @ n1"
    using assms(1) by (intro mount_target_plain) (rule mount_request_name)
  have t2: "join_path ROOT_MOUNT_DIRECTORY [n2] = ''/mnt/'' @ n2"
    using assms(2) by (intro mount_target_plain) (rule mount_request_name)
  have "join_path ROOT_MOUNT_DIRECTORY [n1] \<noteq> join_path ROOT_MOUNT_DIRECTORY [n2]"
    unfolding t1 t2 using assms(3) by simp
  moreover have "fst (generate_mount s n1 p1 r1)
         = dirname (abspath (cwd s) p1) @ '':'' @ join_path ROOT_MOUNT_DIRECTORY [n1] @ '':''
             @ (if r1 then ''ro'' else ''rw'')"
    by (simp only: generate_mount_eq fst_conv)
  ultimately show ?thesis using t1 t2 main_locals_mounts [of s a] by blast
qed

theorem C7_mount_targets_distinct_witness:
  "join_path ROOT_MOUNT_DIRECTORY [''fasta_path_0''] = ''/mnt/fasta_path_0''
   \<and> join_path ROOT_MOUNT_DIRECTORY [''output''] = ''/mnt/output''
   \<and> join_path ROOT_MOUNT_DIRECTORY [''fasta_path_0''] \<noteq> join_path ROOT_MOUNT_DIRECTORY [''output'']"
proof -
  have "(''fasta_path_0'', ''/a/seq1.fasta'', True) \<in> set (mount_requests example_args)"
    and "(''output'', ''/out'', False) \<in> set (mount_requests example_args)"
    and "''fasta_path_0'' \<noteq> ''output''"
    by code_simp+
  from C7_mount_targets_distinct [OF this, of example_process] show ?thesis by simp
qed

subsection \<open>C8: the default model list\<close>

text \<open>
  C8. When \<^verbatim>\<open>--models\<close> is left out and the option parser accepts the command line, the
  model list is \<^verbatim>\<open>model_1\<close> to \<^verbatim>\<open>model_5\<close> in the declared order, and the flags contain
  \<^verbatim>\<open>--model_names=model_1,model_2,model_3,model_4,model_5\<close>.
\<close>

theorem C8_default_models:
  assumes "opt_models c = None" and "parse_arguments s c = Inr a"
  shows "models a = [''model_1'', ''model_2'', ''model_3'', ''model_4'', ''model_5'']
    \<and> ''--model_names='' @ str_join '','' (models a)
          = ''--model_names=model_1,model_2,model_3,model_4,model_5''
    \<and> ''--model_names=model_1,model_2,model_3,model_4,model_5''
          \<in> set (command_args (main_locals s a))"
proof -
  from parse_arguments_Inr(4) [OF assms(2)] assms(1)
  have m: "models a = [''model_1'', ''model_2'', ''model_3'', ''model_4'', ''model_5'']"
    by (simp add: AVAILABLE_MODELS_def)
  have f: "''--model_names='' @ str_join '','' (models a)
      = ''--model_names=model_1,model_2,model_3,model_4,model_5''"
    unfolding m by simp
  have "''--model_names='' @ str_join '','' (models a) \<in> set (command_args (main_locals s a))"
    by (simp add: main_locals_command_args)
  with m f show ?thesis by simp
qed

theorem C8_default_models_witness:
  "models example_args = [''model_1'', ''model_2'', ''model_3'', ''model_4'', ''model_5'']
    \<and> ''--model_names=model_1,model_2,model_3,model_4,model_5''
          \<in> set (command_args (main_locals example_process example_args))"
proof -
  have "opt_models example_cli = None"
    and "parse_arguments example_process example_cli = Inr example_args"
    by code_simp+
  from C8_default_models [OF this] show ?thesis by blast
qed

subsection \<open>C9: the mount computation is deterministic\<close>

text \<open>
  C9. \<^verbatim>\<open>generate_mount\<close> reads nothing of the process but its working directory and changes
  nothing: computed in two process states with the same working directory (whatever has
  been printed or spawned in between, and whatever the date), the same mount name, path and
  access mode give the same bind specification and the same container-visible path.
\<close>

theorem C9_generate_mount_deterministic:
  assumes "cwd s = cwd s'"
  shows "generate_mount s mount_name path read_only = generate_mount s' mount_name path read_only"
  by (simp add: generate_mount_def assms)

theorem C9_generate_mount_deterministic_witness:
  "generate_mount example_process ''output'' ''results/'' False
     = generate_mount
         (example_process \<lparr> today := ''2021-07-31'', stdout := [''Executing: singularity''],
            spawned := [[''singularity'']] \<rparr>)
         ''output'' ''results/'' False"
  by (rule C9_generate_mount_deterministic) simp

subsection \<open>C10: the benchmark flag\<close>

text \<open>
  C10. In every accepted run exactly one of the flags starts with \<^verbatim>\<open>--benchmark\<close>, and it is
  \<^verbatim>\<open>--benchmark=True\<close> when the option was given and \<^verbatim>\<open>--benchmark=False\<close> when it was not:
  never a lower-case value, never the bare flag.
\<close>

theorem C10_benchmark_flag:
  assumes "parse_arguments s c = Inr a"
  shows "filter (\<lambda>x. startswith x ''--benchmark'') (command_args (main_locals s a))
    = [if opt_benchmark c then ''--benchmark=True'' else ''--benchmark=False'']"
proof -
  have b: "benchmark a = opt_benchmark c"
    by (rule parse_arguments_Inr(3) [OF assms])
  show ?thesis
    unfolding main_locals_command_args filter_append arg_flags_not_benchmark
    by (simp add: startswith_def str_bool_def b)
qed

theorem C10_benchmark_flag_witness:
  "filter (\<lambda>x. startswith x ''--benchmark'')
     (command_args (main_locals example_process example_args)) = [''--benchmark=False'']
   \<and> filter (\<lambda>x. startswith x ''--benchmark'')
     (command_args (main_locals example_process (example_args \<lparr> benchmark := True \<rparr>)))
       = [''--benchmark=True'']"
proof -
  have 1: "parse_arguments example_process example_cli = Inr example_args"
    by code_simp
  have 2: "parse_arguments example_process (example_cli \<lparr> opt_benchmark := True \<rparr>)
      = Inr (example_args \<lparr> benchmark := True \<rparr>)"
    by code_simp
  from C10_benchmark_flag [OF 1] C10_benchmark_flag [OF 2] show ?thesis
    by (simp add: example_cli_def)
qed

end
